theory Spec2Isabelle
  imports Main "HOL-Library.Sublist"
begin

section \<open>Data model\<close>

text \<open>
  The catalog consists of \<^verbatim>\<open>book.js\<close> (one book with its \<^verbatim>\<open>matches\<close> predicate) and
  \<^verbatim>\<open>bookList.js\<close> (the list with its search and paging state).

  Strings are lists of characters; a character is a code unit below 256, read as
  Latin-1, which is where \<^verbatim>\<open>trim\<close> and \<^verbatim>\<open>toLowerCase\<close> act on one code unit at a time.
  Numbers are the integers that \<^verbatim>\<open>booksPerPage\<close> and \<^verbatim>\<open>currentPage\<close> range over.

  The filters object is decoded from a form at run time, so each of its
  properties is either a string or \<^verbatim>\<open>undefined\<close> (the property is absent).
\<close>

datatype jsval = Undefined | Str string

datatype error = TypeError

text \<open>
  A book as \<^verbatim>\<open>createBook\<close> receives and returns it. The type parameter is the type of
  \<^verbatim>\<open>published\<close>: the raw date of the data file before, a \<^verbatim>\<open>Date\<close> after.
  The property \<^verbatim>\<open>id\<close> is the field \<open>ident\<close>.
\<close>

record 'd book =
  ident :: string
  title :: string
  author :: string
  image :: string
  description :: string
  published :: 'd
  genres :: "string list"

text \<open>The properties \<^verbatim>\<open>title\<close>, \<^verbatim>\<open>author\<close> and \<^verbatim>\<open>genre\<close> of a filters object.\<close>

record filters =
  f_title :: jsval
  f_author :: jsval
  f_genre :: jsval

record 'd bookList =
  books :: "'d book list"
  booksPerPage :: int
  currentPage :: int
  matches :: "'d book list"

section \<open>Strings and arrays of the host language\<close>

text \<open>White space and line terminators that \<^verbatim>\<open>String.prototype.trim\<close> removes, below 256:
  TAB, LF, VT, FF, CR, SP and NBSP.\<close>

definition isWhiteSpace :: "char \<Rightarrow> bool" where
  "isWhiteSpace c = (of_char c \<in> set [9, 10, 11, 12, 13, 32, 160 :: nat])"

definition trim :: "string \<Rightarrow> string" where
  "trim s = rev (dropWhile isWhiteSpace (rev (dropWhile isWhiteSpace s)))"

text \<open>\<^verbatim>\<open>toLowerCase\<close> below 256: A to Z, and U+00C0 to U+00DE without the
  multiplication sign U+00D7, move up by 32.\<close>

definition toLowerChar :: "char \<Rightarrow> char" where
  "toLowerChar c =
     (let n = (of_char c :: nat)
      in if (65 \<le> n \<and> n \<le> 90) \<or> (192 \<le> n \<and> n \<le> 222 \<and> n \<noteq> 215)
         then char_of (n + 32) else c)"

definition toLowerCase :: "string \<Rightarrow> string" where
  "toLowerCase s = map toLowerChar s"

fun startsWith :: "'a list \<Rightarrow> 'a list \<Rightarrow> bool" where
  "startsWith s [] = True"
| "startsWith [] (c # cs) = False"
| "startsWith (x # xs) (c # cs) = (x = c \<and> startsWith xs cs)"

text \<open>\<^verbatim>\<open>s.includes(searchString)\<close>: the search string starts at some position of \<open>s\<close>.\<close>

fun includesStr :: "'a list \<Rightarrow> 'a list \<Rightarrow> bool" where
  "includesStr [] searchString = startsWith [] searchString"
| "includesStr (x # xs) searchString =
     (startsWith (x # xs) searchString \<or> includesStr xs searchString)"

text \<open>\<^verbatim>\<open>Array.prototype.slice(start, end)\<close>: a negative index counts from the end of the
  array, every index is clamped to the array, and an empty range gives the empty array.\<close>

definition slice :: "'a list \<Rightarrow> int \<Rightarrow> int \<Rightarrow> 'a list" where
  "slice xs start fin =
     (let len = int (length xs);
          k = (if start < 0 then max (len + start) 0 else min start len);
          final = (if fin < 0 then max (len + fin) 0 else min fin len)
      in take (nat (max (final - k) 0)) (drop (nat k) xs))"

text \<open>\<^verbatim>\<open>Array.prototype.filter\<close> with a callback that may throw: the first exception
  leaves the filter.\<close>

fun filterE :: "('a \<Rightarrow> error + bool) \<Rightarrow> 'a list \<Rightarrow> error + 'a list" where
  "filterE p [] = Inr []"
| "filterE p (x # xs) =
     (case p x of
        Inl e \<Rightarrow> Inl e
      | Inr keep \<Rightarrow>
          (case filterE p xs of
             Inl e \<Rightarrow> Inl e
           | Inr ys \<Rightarrow> Inr (if keep then x # ys else ys)))"

section \<open>book.js\<close>

text \<open>\<^verbatim>\<open>new Date\<close> belongs to the host; it is the parameter \<open>newDate\<close>.\<close>

definition createBook :: "('p \<Rightarrow> 'd) \<Rightarrow> 'p book \<Rightarrow> 'd book" where
  "createBook newDate raw =
     \<lparr>ident = ident raw, title = title raw, author = author raw, image = image raw,
      description = description raw, published = newDate (published raw),
      genres = genres raw\<rparr>"

text \<open>The loop over \<^verbatim>\<open>this.genres\<close>: it breaks once \<^verbatim>\<open>genreMatch\<close> is set.\<close>

fun genreLoop :: "bool \<Rightarrow> string list \<Rightarrow> jsval \<Rightarrow> bool" where
  "genreLoop genreMatch [] g = genreMatch"
| "genreLoop genreMatch (singleGenre # rest) g =
     (if genreMatch then genreMatch
      else genreLoop (if Str singleGenre = g then True else genreMatch) rest g)"

definition titleMatch :: "'d book \<Rightarrow> string \<Rightarrow> bool" where
  "titleMatch b t = (trim t = [] \<or> includesStr (toLowerCase (title b)) (toLowerCase t))"

definition authorMatch :: "'d book \<Rightarrow> jsval \<Rightarrow> bool" where
  "authorMatch b a = (a = Str ''any'' \<or> Str (author b) = a)"

definition genreMatch :: "'d book \<Rightarrow> jsval \<Rightarrow> bool" where
  "genreMatch b g = genreLoop (g = Str ''any'') (genres b) g"

text \<open>\<^verbatim>\<open>matches(filters)\<close>. Calling \<^verbatim>\<open>trim\<close> on an absent title throws before anything
  else is evaluated; author and genre are only compared.\<close>

definition matches_book :: "'d book \<Rightarrow> filters \<Rightarrow> error + bool" where
  "matches_book b f =
     (case f_title f of
        Undefined \<Rightarrow> Inl TypeError
      | Str t \<Rightarrow>
          Inr (titleMatch b t \<and> authorMatch b (f_author f) \<and> genreMatch b (f_genre f)))"

section \<open>bookList.js\<close>

definition createBookList :: "('p \<Rightarrow> 'd) \<Rightarrow> 'p book list \<Rightarrow> int \<Rightarrow> 'd bookList" where
  "createBookList newDate booksData perPage =
     \<lparr>books = map (createBook newDate) booksData, booksPerPage = perPage,
      currentPage = 1, matches = map (createBook newDate) booksData\<rparr>"

text \<open>\<^verbatim>\<open>search\<close> returns the new matches and the updated list; an exception of the
  filter leaves before either assignment.\<close>

definition search :: "filters \<Rightarrow> 'd bookList \<Rightarrow> error + ('d book list \<times> 'd bookList)" where
  "search f s =
     (case filterE (\<lambda>b. matches_book b f) (books s) of
        Inl e \<Rightarrow> Inl e
      | Inr ms \<Rightarrow> Inr (ms, s\<lparr>matches := ms, currentPage := 1\<rparr>))"

definition getCurrentBookPage :: "'d bookList \<Rightarrow> 'd book list" where
  "getCurrentBookPage s =
     (let start = (currentPage s - 1) * booksPerPage s;
          fin = start + booksPerPage s
      in slice (matches s) start fin)"

definition remainingCount :: "'d bookList \<Rightarrow> int" where
  "remainingCount s = max 0 (int (length (matches s)) - currentPage s * booksPerPage s)"

definition nextPage :: "'d bookList \<Rightarrow> bool \<times> 'd bookList" where
  "nextPage s =
     (if remainingCount s > 0 then (True, s\<lparr>currentPage := currentPage s + 1\<rparr>)
      else (False, s))"

section \<open>The calls of the interface\<close>

text \<open>A criteria triple of three strings.\<close>

abbreviation criteria :: "string \<Rightarrow> string \<Rightarrow> string \<Rightarrow> filters" where
  "criteria t a g \<equiv> \<lparr>f_title = Str t, f_author = Str a, f_genre = Str g\<rparr>"

text \<open>
  One call of a method of the list object, with what it returns and the list it
  leaves. \<^verbatim>\<open>getCurrentBookPage\<close> and \<^verbatim>\<open>remainingCount\<close> assign to nothing.
\<close>

datatype 'd retval = Books "'d book list" | Num int | Bool bool

datatype op = Search filters | GetCurrentBookPage | RemainingCount | NextPage

fun call :: "op \<Rightarrow> 'd bookList \<Rightarrow> error + ('d retval \<times> 'd bookList)" where
  "call (Search f) s =
     (case search f s of Inl e \<Rightarrow> Inl e | Inr (ms, s') \<Rightarrow> Inr (Books ms, s'))"
| "call GetCurrentBookPage s = Inr (Books (getCurrentBookPage s), s)"
| "call RemainingCount s = Inr (Num (remainingCount s), s)"
| "call NextPage s = (case nextPage s of (moved, s') \<Rightarrow> Inr (Bool moved, s'))"

text \<open>A call that throws leaves the list as it was; the next event finds it so.\<close>

definition step :: "op \<Rightarrow> 'd bookList \<Rightarrow> 'd bookList" where
  "step c s = (case call c s of Inl e \<Rightarrow> s | Inr (r, s') \<Rightarrow> s')"

definition run :: "op list \<Rightarrow> 'd bookList \<Rightarrow> 'd bookList" where
  "run cs s = foldl (\<lambda>s' c. step c s') s cs"

fun isStr :: "jsval \<Rightarrow> bool" where
  "isStr (Str s) = True"
| "isStr Undefined = False"

text \<open>A call whose criteria, if it has any, are three strings.\<close>

fun stringCriteria :: "op \<Rightarrow> bool" where
  "stringCriteria (Search f) = (isStr (f_title f) \<and> isStr (f_author f) \<and> isStr (f_genre f))"
| "stringCriteria c = True"

text \<open>
  Showing every page, as the user interface does: the first page is rendered; as long
  as \<^verbatim>\<open>remainingCount\<close> is not 0 the "show more" button is enabled and a click calls
  \<^verbatim>\<open>nextPage\<close> and renders the page it leads to. So the current page is taken, and when
  nothing remains after it the loop stops, otherwise it goes to the next page and
  repeats. The result is the list of the pages taken. With a page size of 0 and
  entries remaining the loop never ends, which is the value \<open>None\<close>.
\<close>

partial_function (option) showAllPages :: "'d bookList \<Rightarrow> 'd book list list option" where
  "showAllPages s =
     (let page = getCurrentBookPage s
      in if remainingCount s = 0 then Some [page]
         else Option.bind (showAllPages (snd (nextPage s))) (\<lambda>rest. Some (page # rest)))"

declare showAllPages.simps [code]

text \<open>The page that \<^verbatim>\<open>getCurrentBookPage\<close> gives at page number \<open>k\<close>, and the entries
  of all pages from 1 to the current one.\<close>

definition pageAt :: "'d bookList \<Rightarrow> int \<Rightarrow> 'd book list" where
  "pageAt s k = getCurrentBookPage (s\<lparr>currentPage := k\<rparr>)"

definition shownUpTo :: "'d bookList \<Rightarrow> 'd book list" where
  "shownUpTo s = concat (map (pageAt s) [1..currentPage s])"

section \<open>The words of the specification\<close>

text \<open>Empty or made of white space only.\<close>

definition blank :: "string \<Rightarrow> bool" where
  "blank t = list_all isWhiteSpace t"

text \<open>Title: containment as a substring once both sides are in lower case, and true
  for a blank criteria title.\<close>

definition spec_titleTest :: "'d book \<Rightarrow> string \<Rightarrow> bool" where
  "spec_titleTest b t = (blank t \<or> sublist (toLowerCase t) (toLowerCase (title b)))"

text \<open>Author: the sentinel, or the same string.\<close>

definition spec_authorTest :: "'d book \<Rightarrow> string \<Rightarrow> bool" where
  "spec_authorTest b a = (a = ''any'' \<or> author b = a)"

text \<open>Genre: the sentinel, or an element of the entry's genres.\<close>

definition spec_genreTest :: "'d book \<Rightarrow> string \<Rightarrow> bool" where
  "spec_genreTest b g = (g = ''any'' \<or> g \<in> set (genres b))"

text \<open>\<open>xs[a : b]\<close>: the elements of \<open>xs\<close> at the indices from \<open>a\<close> up to but
  excluding \<open>b\<close>, as far as \<open>xs\<close> has them.\<close>

definition spec_slice :: "'a list \<Rightarrow> nat \<Rightarrow> nat \<Rightarrow> 'a list" where
  "spec_slice xs a b = take (b - a) (drop a xs)"

section \<open>The example of the specification\<close>

definition goFish :: "string book" where
  "goFish = \<lparr>ident = ''1'', title = ''Go Fish'', author = ''a1'', image = '''',
     description = '''', published = ''2020-01-01'', genres = [''g1'']\<rparr>"

definition rustPrimer :: "string book" where
  "rustPrimer = \<lparr>ident = ''2'', title = ''Rust Primer'', author = ''a2'', image = '''',
     description = '''', published = ''2021-01-01'', genres = [''g2'']\<rparr>"

text \<open>The two entries with one entry per page; the dates are kept as they are.\<close>

definition exampleList :: "string bookList" where
  "exampleList = createBookList (\<lambda>d. d) [goFish, rustPrimer] 1"

section \<open>Facts about the host functions\<close>

lemma dropWhile_all_iff: "(\<forall>x\<in>set (dropWhile P xs). P x) \<longleftrightarrow> (\<forall>x\<in>set xs. P x)"
proof
  assume h: "\<forall>x\<in>set (dropWhile P xs). P x"
  have "dropWhile P xs = []"
  proof (rule ccontr)
    assume ne: "dropWhile P xs \<noteq> []"
    then have "\<not> P (hd (dropWhile P xs))" by (rule hd_dropWhile)
    moreover from ne have "hd (dropWhile P xs) \<in> set (dropWhile P xs)" by simp
    ultimately show False using h by blast
  qed
  then show "\<forall>x\<in>set xs. P x" by (simp add: dropWhile_eq_Nil_conv)
next
  assume "\<forall>x\<in>set xs. P x"
  then show "\<forall>x\<in>set (dropWhile P xs). P x"
    by (meson set_dropWhileD)
qed

lemma trim_empty_iff: "trim s = [] \<longleftrightarrow> blank s"
  by (simp add: trim_def blank_def dropWhile_eq_Nil_conv list_all_iff dropWhile_all_iff)

lemma startsWith_prefix: "startsWith s p \<longleftrightarrow> prefix p s"
  by (induction s p rule: startsWith.induct) auto

lemma includesStr_sublist: "includesStr s ss \<longleftrightarrow> sublist ss s"
  by (induction s) (auto simp: startsWith_prefix sublist_Cons_right)

lemma slice_nonneg:
  "0 \<le> a \<Longrightarrow> a \<le> b \<Longrightarrow> slice xs a b = take (nat (b - a)) (drop (nat a) xs)"
  by (auto simp: slice_def Let_def min_def max_def)

lemma filterE_Inr:
  "(\<And>x. x \<in> set xs \<Longrightarrow> p x = Inr (q x)) \<Longrightarrow> filterE p xs = Inr (filter q xs)"
  by (induction xs) auto

lemma filterE_Inr_filter:
  "filterE p xs = Inr ys \<Longrightarrow> ys = filter (\<lambda>x. p x = Inr True) xs"
  by (induction xs arbitrary: ys) (auto split: sum.splits if_splits)

lemma slice_negative_end: "slice [a, b, c] 0 (- 1) = [a, b]"
  by (simp add: slice_def)

lemma length_spec_slice: "length (spec_slice xs a b) = min (b - a) (length xs - a)"
  by (simp add: spec_slice_def)

lemma nth_spec_slice:
  assumes "i < length (spec_slice xs a b)"
  shows "spec_slice xs a b ! i = xs ! (a + i)"
proof -
  from assms have "i < b - a" "i < length xs - a"
    by (simp_all add: spec_slice_def)
  then have "a \<le> length xs" by arith
  with \<open>i < b - a\<close> show ?thesis
    by (simp add: spec_slice_def)
qed

section \<open>Facts about book.js\<close>

lemma genreLoop_eq: "genreLoop gm gs g \<longleftrightarrow> gm \<or> g \<in> Str ` set gs"
  by (induction gs arbitrary: gm) auto

lemma titleMatch_spec: "titleMatch b t = spec_titleTest b t"
  by (simp add: titleMatch_def spec_titleTest_def trim_empty_iff includesStr_sublist)

lemma authorMatch_spec: "authorMatch b (Str a) = spec_authorTest b a"
  by (simp add: authorMatch_def spec_authorTest_def)

lemma genreMatch_spec: "genreMatch b (Str g) = spec_genreTest b g"
  by (auto simp: genreMatch_def spec_genreTest_def genreLoop_eq)

lemma matches_book_criteria:
  "matches_book b (criteria t a g) =
     Inr (spec_titleTest b t \<and> spec_authorTest b a \<and> spec_genreTest b g)"
  by (simp add: matches_book_def titleMatch_spec authorMatch_spec genreMatch_spec)

lemma matches_book_Undefined:
  "matches_book b \<lparr>f_title = Undefined, f_author = a, f_genre = g\<rparr> = Inl TypeError"
  by (simp add: matches_book_def)

section \<open>Facts about bookList.js\<close>

lemma search_criteria:
  "search (criteria t a g) s =
     Inr (filter (\<lambda>b. spec_titleTest b t \<and> spec_authorTest b a \<and> spec_genreTest b g) (books s),
          s\<lparr>matches := filter (\<lambda>b. spec_titleTest b t \<and> spec_authorTest b a \<and> spec_genreTest b g) (books s),
            currentPage := 1\<rparr>)"
  unfolding search_def
  by (subst filterE_Inr [where q = "\<lambda>b. spec_titleTest b t \<and> spec_authorTest b a \<and> spec_genreTest b g"])
     (simp_all add: matches_book_criteria)

lemma search_Inr_True:
  "search (criteria t a g) s =
     Inr (filter (\<lambda>b. matches_book b (criteria t a g) = Inr True) (books s),
          s\<lparr>matches := filter (\<lambda>b. matches_book b (criteria t a g) = Inr True) (books s),
            currentPage := 1\<rparr>)"
  by (simp add: search_criteria matches_book_criteria)

lemma search_Inr_D:
  "search f s = Inr (ms, s') \<Longrightarrow>
   ms = filter (\<lambda>b. matches_book b f = Inr True) (books s) \<and>
   s' = s\<lparr>matches := ms, currentPage := 1\<rparr>"
  by (auto simp: search_def split: sum.splits dest: filterE_Inr_filter)

lemma search_no_match:
  assumes "\<And>b. b \<in> set (books s) \<Longrightarrow> matches_book b (criteria t a g) = Inr False"
  shows "search (criteria t a g) s = Inr ([], s\<lparr>matches := [], currentPage := 1\<rparr>)"
proof -
  have "filter (\<lambda>b. matches_book b (criteria t a g) = Inr True) (books s) = []"
    using assms by (simp add: filter_empty_conv)
  then show ?thesis by (simp add: search_Inr_True)
qed

lemma search_Undefined:
  "books s \<noteq> [] \<Longrightarrow> search \<lparr>f_title = Undefined, f_author = a, f_genre = g\<rparr> s = Inl TypeError"
  by (cases "books s") (simp_all add: search_def matches_book_def)

lemma nextPage_books [simp]: "books (snd (nextPage s)) = books s"
  by (simp add: nextPage_def)

lemma nextPage_booksPerPage [simp]: "booksPerPage (snd (nextPage s)) = booksPerPage s"
  by (simp add: nextPage_def)

lemma nextPage_matches [simp]: "matches (snd (nextPage s)) = matches s"
  by (simp add: nextPage_def)

lemma funpow_nextPage_books [simp]: "books (((snd \<circ> nextPage) ^^ n) s) = books s"
  by (induction n) simp_all

lemma funpow_nextPage_booksPerPage [simp]:
  "booksPerPage (((snd \<circ> nextPage) ^^ n) s) = booksPerPage s"
  by (induction n) simp_all

lemma page_take_drop:
  assumes "1 \<le> currentPage s" "0 \<le> booksPerPage s"
  shows "getCurrentBookPage s =
    take (nat (booksPerPage s)) (drop (nat ((currentPage s - 1) * booksPerPage s)) (matches s))"
proof -
  have "0 \<le> (currentPage s - 1) * booksPerPage s"
    using assms by simp
  then show ?thesis
    using assms by (simp add: getCurrentBookPage_def Let_def slice_nonneg)
qed

lemma nat_page_bounds:
  assumes "1 \<le> (k::int)" "0 \<le> p"
  shows "nat (k * p) = nat ((k - 1) * p) + nat p"
proof -
  have "0 \<le> (k - 1) * p" using assms by simp
  moreover have "k * p = (k - 1) * p + p" by (simp add: algebra_simps)
  ultimately show ?thesis using assms by (simp add: nat_add_distrib)
qed

lemma pages_upto:
  assumes "0 \<le> booksPerPage s" "0 \<le> k"
  shows "concat (map (pageAt s) [1..k]) = take (nat (k * booksPerPage s)) (matches s)"
  using assms(2)
proof (induction k rule: int_ge_induct)
  case base
  show ?case by simp
next
  case (step i)
  have up: "[1..i + 1] = [1..i] @ [i + 1]"
    using step.hyps by (simp add: upto_rec2)
  have pg: "pageAt s (i + 1) =
      take (nat (booksPerPage s)) (drop (nat (i * booksPerPage s)) (matches s))"
    using step.hyps assms(1) page_take_drop [of "s\<lparr>currentPage := i + 1\<rparr>"]
    by (simp add: pageAt_def)
  have "nat ((i + 1) * booksPerPage s) = nat (i * booksPerPage s) + nat (booksPerPage s)"
    using nat_page_bounds [of "i + 1" "booksPerPage s"] step.hyps assms(1) by simp
  then show ?case
    by (simp add: up pg step.IH take_add)
qed

lemma shownUpTo_take:
  "1 \<le> currentPage s \<Longrightarrow> 0 \<le> booksPerPage s \<Longrightarrow>
   shownUpTo s = take (nat (currentPage s * booksPerPage s)) (matches s)"
  by (simp add: shownUpTo_def pages_upto)

lemma remainingCount_after:
  assumes "0 < remainingCount s"
  shows "remainingCount (s\<lparr>currentPage := currentPage s + 1\<rparr>) =
    max 0 (remainingCount s - booksPerPage s)"
proof -
  have e: "(currentPage s + 1) * booksPerPage s = currentPage s * booksPerPage s + booksPerPage s"
    by (simp add: algebra_simps)
  show ?thesis
    using assms by (auto simp: remainingCount_def e max_def)
qed

lemma showAllPages_from:
  "1 \<le> booksPerPage s \<Longrightarrow> 1 \<le> currentPage s \<Longrightarrow>
   \<exists>pages. showAllPages s = Some pages \<and>
     concat pages = drop (nat ((currentPage s - 1) * booksPerPage s)) (matches s)"
proof (induction "nat (remainingCount s)" arbitrary: s rule: less_induct)
  case less
  have pp: "0 \<le> booksPerPage s" using less.prems by simp
  have p: "getCurrentBookPage s =
    take (nat (booksPerPage s)) (drop (nat ((currentPage s - 1) * booksPerPage s)) (matches s))"
    using less.prems(2) pp by (rule page_take_drop)
  have b: "nat (currentPage s * booksPerPage s) =
      nat ((currentPage s - 1) * booksPerPage s) + nat (booksPerPage s)"
    using less.prems(2) pp by (rule nat_page_bounds)
  show ?case
  proof (cases "remainingCount s = 0")
    case True
    then have "int (length (matches s)) \<le> currentPage s * booksPerPage s"
      by (simp add: remainingCount_def max_def split: if_splits)
    then have "length (matches s) \<le> nat (currentPage s * booksPerPage s)" by simp
    then have "getCurrentBookPage s =
        drop (nat ((currentPage s - 1) * booksPerPage s)) (matches s)"
      by (simp add: p b)
    moreover have "showAllPages s = Some [getCurrentBookPage s]"
      using True by (subst showAllPages.simps) simp
    ultimately show ?thesis by simp
  next
    case False
    have nn: "0 \<le> remainingCount s" by (simp add: remainingCount_def)
    with False have pos: "0 < remainingCount s" by simp
    define s' where "s' = s\<lparr>currentPage := currentPage s + 1\<rparr>"
    have np: "snd (nextPage s) = s'"
      using pos by (simp add: nextPage_def s'_def)
    have "remainingCount s' = max 0 (remainingCount s - booksPerPage s)"
      using pos by (simp add: s'_def remainingCount_after)
    then have dec: "nat (remainingCount s') < nat (remainingCount s)"
      using pos less.prems(1) by (simp add: max_def)
    have "\<exists>pages. showAllPages s' = Some pages \<and>
       concat pages = drop (nat ((currentPage s' - 1) * booksPerPage s')) (matches s')"
      using dec less.prems by (intro less.hyps) (simp_all add: s'_def)
    then obtain rest where r: "showAllPages s' = Some rest"
      and c: "concat rest = drop (nat (currentPage s * booksPerPage s)) (matches s)"
      by (auto simp: s'_def)
    have "showAllPages s = Some (getCurrentBookPage s # rest)"
      using False r by (subst showAllPages.simps) (simp add: np)
    moreover have "concat (getCurrentBookPage s # rest) =
        drop (nat ((currentPage s - 1) * booksPerPage s)) (matches s)"
    proof -
      have "concat rest =
          drop (nat (booksPerPage s))
            (drop (nat ((currentPage s - 1) * booksPerPage s)) (matches s))"
        using c by (simp add: b add.commute)
      then show ?thesis
        by (simp only: concat.simps p append_take_drop_id)
    qed
    ultimately show ?thesis by blast
  qed
qed

lemma showAllPages_stuck:
  assumes "showAllPages s = Some pages"
  shows "\<not> (booksPerPage s = 0 \<and> 0 < remainingCount s)"
proof (rule showAllPages.raw_induct
    [where P = "\<lambda>s pages. \<not> (booksPerPage s = 0 \<and> 0 < remainingCount s)"
      and s = s and y = pages])
  fix f :: "'a bookList \<Rightarrow> 'a book list list option" and s sa
  assume IH: "\<And>x y. f x = Some y \<Longrightarrow> \<not> (booksPerPage x = 0 \<and> 0 < remainingCount x)"
  assume eq: "(let page = getCurrentBookPage s
      in if remainingCount s = 0 then Some [page]
         else Option.bind (f (snd (nextPage s))) (\<lambda>rest. Some (page # rest))) = Some sa"
  show "\<not> (booksPerPage s = 0 \<and> 0 < remainingCount s)"
  proof
    assume h: "booksPerPage s = 0 \<and> 0 < remainingCount s"
    then have np: "snd (nextPage s) = s\<lparr>currentPage := currentPage s + 1\<rparr>"
      by (simp add: nextPage_def)
    have r: "remainingCount (s\<lparr>currentPage := currentPage s + 1\<rparr>) = remainingCount s"
      using h by (simp add: remainingCount_def)
    from eq h obtain rest where "f (s\<lparr>currentPage := currentPage s + 1\<rparr>) = Some rest"
      by (auto simp: np Let_def split: if_splits bind_splits)
    from IH [OF this] h r show False by simp
  qed
next
  show "showAllPages s = Some pages" by (rule assms)
qed

lemma showAllPages_None:
  "booksPerPage s = 0 \<Longrightarrow> 0 < remainingCount s \<Longrightarrow> showAllPages s = None"
  using showAllPages_stuck [of s] by (cases "showAllPages s") auto

section \<open>Facts about sequences of calls\<close>

lemma step_cases:
  "step c s = s \<or> step c s = s\<lparr>currentPage := currentPage s + 1\<rparr>
   \<or> (\<exists>f. step c s =
         s\<lparr>matches := filter (\<lambda>b. matches_book b f = Inr True) (books s), currentPage := 1\<rparr>)"
proof (cases c)
  case (Search f)
  show ?thesis
  proof (cases "search f s")
    case (Inl e)
    then show ?thesis by (simp add: Search step_def)
  next
    case (Inr r)
    obtain ms s' where r: "r = (ms, s')" by (cases r)
    from Inr r search_Inr_D [of f s ms s'] have "step c s =
        s\<lparr>matches := filter (\<lambda>b. matches_book b f = Inr True) (books s), currentPage := 1\<rparr>"
      by (simp add: Search step_def)
    then show ?thesis by blast
  qed
next
  case GetCurrentBookPage
  then show ?thesis by (simp add: step_def)
next
  case RemainingCount
  then show ?thesis by (simp add: step_def)
next
  case NextPage
  then show ?thesis by (simp add: step_def nextPage_def)
qed

lemma step_books [simp]: "books (step c s) = books s"
  using step_cases [of c s] by auto

lemma step_booksPerPage [simp]: "booksPerPage (step c s) = booksPerPage s"
  using step_cases [of c s] by auto

lemma step_currentPage: "1 \<le> currentPage s \<Longrightarrow> 1 \<le> currentPage (step c s)"
  using step_cases [of c s] by auto

lemma step_filtered:
  assumes "matches s = books s \<or>
    (\<exists>f. matches s = filter (\<lambda>b. matches_book b f = Inr True) (books s))"
  shows "matches (step c s) = books (step c s) \<or>
    (\<exists>f. matches (step c s) = filter (\<lambda>b. matches_book b f = Inr True) (books (step c s)))"
  using step_cases [of c s] assms by auto

lemma run_Nil [simp]: "run [] s = s"
  by (simp add: run_def)

lemma run_Cons [simp]: "run (c # cs) s = run cs (step c s)"
  by (simp add: run_def)

lemma run_books [simp]: "books (run cs s) = books s"
  by (induction cs arbitrary: s) simp_all

lemma run_booksPerPage [simp]: "booksPerPage (run cs s) = booksPerPage s"
  by (induction cs arbitrary: s) simp_all

lemma run_currentPage: "1 \<le> currentPage s \<Longrightarrow> 1 \<le> currentPage (run cs s)"
  by (induction cs arbitrary: s) (simp_all add: step_currentPage)

lemma run_filtered:
  "matches s = books s \<or>
    (\<exists>f. matches s = filter (\<lambda>b. matches_book b f = Inr True) (books s)) \<Longrightarrow>
   matches (run cs s) = books s \<or>
    (\<exists>f. matches (run cs s) = filter (\<lambda>b. matches_book b f = Inr True) (books s))"
proof (induction cs arbitrary: s)
  case Nil
  then show ?case by simp
next
  case (Cons c cs)
  from step_filtered [OF Cons.prems, of c] Cons.IH [of "step c s"]
  show ?case by simp
qed

section \<open>Facts about the example\<close>

lemma exampleList_fields:
  "books exampleList = [goFish, rustPrimer]" "matches exampleList = [goFish, rustPrimer]"
  "booksPerPage exampleList = 1" "currentPage exampleList = 1"
  by (simp_all add: exampleList_def createBookList_def createBook_def goFish_def rustPrimer_def)

lemma showAllPages_example: "showAllPages exampleList = Some [[goFish], [rustPrimer]]"
  by (simp add: showAllPages.simps [of exampleList]
      showAllPages.simps [of "exampleList\<lparr>currentPage := 2\<rparr>"]
      remainingCount_def nextPage_def getCurrentBookPage_def slice_def exampleList_fields)

lemma specification_scenario:
  "search (criteria '''' ''any'' ''g1'') exampleList =
     Inr ([goFish], exampleList\<lparr>matches := [goFish], currentPage := 1\<rparr>)
   \<and> getCurrentBookPage (exampleList\<lparr>matches := [goFish], currentPage := 1\<rparr>) = [goFish]
   \<and> remainingCount (exampleList\<lparr>matches := [goFish], currentPage := 1\<rparr>) = 0
   \<and> nextPage (exampleList\<lparr>matches := [goFish], currentPage := 1\<rparr>) =
       (False, exampleList\<lparr>matches := [goFish], currentPage := 1\<rparr>)"
proof -
  have g: "spec_genreTest goFish ''g1''" "\<not> spec_genreTest rustPrimer ''g1''" by code_simp+
  have t: "spec_titleTest goFish ''''" "spec_authorTest goFish ''any''" by code_simp+
  show ?thesis
    by (simp add: search_criteria exampleList_fields g t getCurrentBookPage_def slice_def
        remainingCount_def nextPage_def)
qed

section \<open>The claims\<close>

text \<open>
  C1. For every list and every criteria triple of strings, \<^verbatim>\<open>search\<close> sets \<^verbatim>\<open>matches\<close> to
  the books that satisfy \<^verbatim>\<open>matches(filters)\<close>, in the order they have in \<^verbatim>\<open>books\<close>, sets
  \<^verbatim>\<open>currentPage\<close> to 1 and returns the new matches. This is so after any number \<open>n\<close>
  of \<^verbatim>\<open>nextPage\<close> calls; with a page size that is not negative, the page read afterwards
  is made of the first \<^verbatim>\<open>booksPerPage\<close> matches.
\<close>

theorem search_recomputes_and_resets:
  "search (criteria t a g) s =
     Inr (filter (\<lambda>b. matches_book b (criteria t a g) = Inr True) (books s),
          s\<lparr>matches := filter (\<lambda>b. matches_book b (criteria t a g) = Inr True) (books s),
            currentPage := 1\<rparr>)
   \<and> subseq (filter (\<lambda>b. matches_book b (criteria t a g) = Inr True) (books s)) (books s)
   \<and> (\<exists>s'. search (criteria t a g) (((snd \<circ> nextPage) ^^ n) s) =
              Inr (filter (\<lambda>b. matches_book b (criteria t a g) = Inr True) (books s), s')
            \<and> matches s' = filter (\<lambda>b. matches_book b (criteria t a g) = Inr True) (books s)
            \<and> currentPage s' = 1
            \<and> (0 \<le> booksPerPage s \<longrightarrow>
                 getCurrentBookPage s' = take (nat (booksPerPage s)) (matches s')))"
  by (simp add: search_Inr_True getCurrentBookPage_def slice_nonneg)

theorem search_recomputes_and_resets_witness:
  "search (criteria ''r'' ''any'' ''g2'') exampleList =
     Inr ([rustPrimer], exampleList\<lparr>matches := [rustPrimer], currentPage := 1\<rparr>)
   \<and> 0 \<le> booksPerPage exampleList
   \<and> (\<exists>s'. search (criteria ''r'' ''any'' ''g2'') (((snd \<circ> nextPage) ^^ 3) exampleList) =
              Inr ([rustPrimer], s')
            \<and> currentPage s' = 1 \<and> getCurrentBookPage s' = [rustPrimer])"
proof -
  have m1: "matches_book goFish (criteria ''r'' ''any'' ''g2'') = Inr False"
    by (simp add: matches_book_criteria) code_simp
  have m2: "matches_book rustPrimer (criteria ''r'' ''any'' ''g2'') = Inr True"
    by (simp add: matches_book_criteria) code_simp
  have ne: "rustPrimer \<noteq> goFish"
    by (simp add: goFish_def rustPrimer_def)
  show ?thesis
    using search_recomputes_and_resets [of "''r''" "''any''" "''g2''" exampleList 3]
    by (auto simp: exampleList_fields m1 m2 ne)
qed

text \<open>
  C2. For every entry and every criteria triple of strings, \<^verbatim>\<open>matches\<close> returns the
  conjunction of three independent tests. The title test is containment of the criteria
  title as a substring of the entry's title, both in lower case, and it holds whenever
  the criteria title is empty or white space only. The author test is the sentinel
  \<^verbatim>\<open>any\<close> or equality of the two strings. The genre test is the sentinel \<^verbatim>\<open>any\<close> or
  membership of the criteria genre in the entry's genres, so that two genre lists with
  the same elements give the same result. When one of the three tests fails the result
  is false, whatever the other two are.
\<close>

theorem matchesFilter_conjunction:
  "titleMatch b t = spec_titleTest b t
   \<and> authorMatch b (Str a) = spec_authorTest b a
   \<and> genreMatch b (Str g) = spec_genreTest b g
   \<and> matches_book b (criteria t a g) =
       Inr (spec_titleTest b t \<and> spec_authorTest b a \<and> spec_genreTest b g)
   \<and> (blank t \<longrightarrow> titleMatch b t)
   \<and> (set gs = set (genres b) \<longrightarrow>
        matches_book (b\<lparr>genres := gs\<rparr>) (criteria t a g) = matches_book b (criteria t a g))
   \<and> (\<not> spec_titleTest b t \<or> \<not> spec_authorTest b a \<or> \<not> spec_genreTest b g \<longrightarrow>
        matches_book b (criteria t a g) = Inr False)"
  by (auto simp: matches_book_criteria titleMatch_spec authorMatch_spec genreMatch_spec
      spec_titleTest_def spec_authorTest_def spec_genreTest_def)

theorem matchesFilter_conjunction_witness:
  "blank ''  '' \<and> titleMatch goFish ''  ''
   \<and> matches_book goFish (criteria ''  '' ''any'' ''any'') = Inr True
   \<and> matches_book goFish (criteria ''o f'' ''a1'' ''g1'') = Inr True
   \<and> set [''g0'', ''g1''] = set (genres (goFish\<lparr>genres := [''g1'', ''g0'', ''g1'']\<rparr>))
   \<and> matches_book (goFish\<lparr>genres := [''g0'', ''g1'']\<rparr>) (criteria ''GO'' ''a1'' ''g1'')
       = matches_book (goFish\<lparr>genres := [''g1'', ''g0'', ''g1'']\<rparr>) (criteria ''GO'' ''a1'' ''g1'')
   \<and> \<not> spec_genreTest goFish ''g2''
   \<and> matches_book goFish (criteria ''Go'' ''a1'' ''g2'') = Inr False"
proof -
  note inst1 = matchesFilter_conjunction [of goFish "''o f''" "''a1''" "''g1''" "[]"]
  note inst2 = matchesFilter_conjunction [of goFish "''  ''" "''any''" "''any''" "[]"]
  note inst3 = matchesFilter_conjunction [of "goFish\<lparr>genres := [''g1'', ''g0'', ''g1'']\<rparr>"
        "''GO''" "''a1''" "''g1''" "[''g0'', ''g1'']"]
  note inst4 = matchesFilter_conjunction [of goFish "''Go''" "''a1''" "''g2''" "[]"]
  have t1: "spec_titleTest goFish ''o f''" by code_simp
  have a1: "spec_authorTest goFish ''a1''" by code_simp
  have g1: "spec_genreTest goFish ''g1''" by code_simp
  have "matches_book goFish (criteria ''o f'' ''a1'' ''g1'') =
      Inr (spec_titleTest goFish ''o f'' \<and> spec_authorTest goFish ''a1'' \<and> spec_genreTest goFish ''g1'')"
    using inst1 by blast
  then have p1: "matches_book goFish (criteria ''o f'' ''a1'' ''g1'') = Inr True"
    by (simp add: t1 a1 g1)
  have b2: "blank ''  ''" by code_simp
  have t2: "titleMatch goFish ''  ''"
    using inst2 b2 by blast
  then have t2': "spec_titleTest goFish ''  ''"
    using inst2 by blast
  have a2: "spec_authorTest goFish ''any''" by code_simp
  have g2: "spec_genreTest goFish ''any''" by code_simp
  have "matches_book goFish (criteria ''  '' ''any'' ''any'') =
      Inr (spec_titleTest goFish ''  '' \<and> spec_authorTest goFish ''any'' \<and> spec_genreTest goFish ''any'')"
    using inst2 by blast
  then have p2: "matches_book goFish (criteria ''  '' ''any'' ''any'') = Inr True"
    by (simp add: t2' a2 g2)
  have s3: "set [''g0'', ''g1''] = set (genres (goFish\<lparr>genres := [''g1'', ''g0'', ''g1'']\<rparr>))"
    by auto
  have p3: "matches_book (goFish\<lparr>genres := [''g0'', ''g1'']\<rparr>) (criteria ''GO'' ''a1'' ''g1'')
       = matches_book (goFish\<lparr>genres := [''g1'', ''g0'', ''g1'']\<rparr>) (criteria ''GO'' ''a1'' ''g1'')"
    using inst3 s3 by simp
  have g4: "\<not> spec_genreTest goFish ''g2''" by code_simp
  have p4: "matches_book goFish (criteria ''Go'' ''a1'' ''g2'') = Inr False"
    using inst4 g4 by blast
  show ?thesis using b2 t2 p1 p2 s3 p3 g4 p4 by blast
qed

text \<open>
  C3. For every page size of at least 1 and every list of matches: starting at page 1,
  taking the current page and going to the next one until \<^verbatim>\<open>remainingCount\<close> is 0 at the
  page just taken comes to an end, and the pages taken, put one after the other, are
  exactly the matches, with no entry twice and none left out.
\<close>

theorem pagination_exhaustive:
  assumes "1 \<le> booksPerPage s" and "currentPage s = 1"
  shows "\<exists>pages. showAllPages s = Some pages \<and> concat pages = matches s"
  using showAllPages_from [of s] assms by simp

theorem pagination_exhaustive_witness:
  "1 \<le> booksPerPage exampleList \<and> currentPage exampleList = 1
   \<and> (\<exists>pages. showAllPages exampleList = Some pages \<and> concat pages = [goFish, rustPrimer])"
  using pagination_exhaustive [of exampleList]
  by (simp add: exampleList_fields)

text \<open>
  C4. For every list, \<^verbatim>\<open>nextPage\<close> adds exactly 1 to \<^verbatim>\<open>currentPage\<close>, changes nothing else
  and returns true when \<^verbatim>\<open>remainingCount\<close> is positive; otherwise it leaves the whole list
  as it is and returns false. It returns false exactly when \<^verbatim>\<open>remainingCount\<close> is 0.
  After a successful call \<^verbatim>\<open>remainingCount\<close> is the former value less \<^verbatim>\<open>booksPerPage\<close>, or 0
  when that is negative; it has strictly decreased when the page size is at least 1.
\<close>

theorem nextPage_spec:
  "(0 < remainingCount s \<longrightarrow> nextPage s = (True, s\<lparr>currentPage := currentPage s + 1\<rparr>))
   \<and> (\<not> 0 < remainingCount s \<longrightarrow> nextPage s = (False, s))
   \<and> ((\<not> fst (nextPage s)) = (remainingCount s = 0))
   \<and> (fst (nextPage s) \<longrightarrow>
        remainingCount (snd (nextPage s)) = max 0 (remainingCount s - booksPerPage s))
   \<and> (fst (nextPage s) \<longrightarrow> 1 \<le> booksPerPage s \<longrightarrow>
        remainingCount (snd (nextPage s)) < remainingCount s)"
proof -
  have nn: "0 \<le> remainingCount s" by (simp add: remainingCount_def)
  show ?thesis
    using nn by (auto simp: nextPage_def remainingCount_after)
qed

theorem nextPage_spec_witness:
  "0 < remainingCount exampleList
   \<and> nextPage exampleList = (True, exampleList\<lparr>currentPage := 2\<rparr>)
   \<and> fst (nextPage exampleList) \<and> 1 \<le> booksPerPage exampleList
   \<and> remainingCount (snd (nextPage exampleList)) = 0
   \<and> remainingCount (snd (nextPage exampleList)) < remainingCount exampleList
   \<and> \<not> 0 < remainingCount (exampleList\<lparr>currentPage := 2\<rparr>)
   \<and> nextPage (exampleList\<lparr>currentPage := 2\<rparr>) = (False, exampleList\<lparr>currentPage := 2\<rparr>)"
proof -
  have r1: "remainingCount exampleList = 1"
    by (simp add: remainingCount_def exampleList_fields)
  have r2: "remainingCount (exampleList\<lparr>currentPage := 2\<rparr>) = 0"
    by (simp add: remainingCount_def exampleList_fields)
  show ?thesis
    using nextPage_spec [of exampleList] nextPage_spec [of "exampleList\<lparr>currentPage := 2\<rparr>"]
    by (simp add: r1 r2 exampleList_fields)
qed

text \<open>
  C5. In every list of the data model (\<^verbatim>\<open>currentPage\<close> at least 1, \<^verbatim>\<open>booksPerPage\<close> not
  negative) \<^verbatim>\<open>getCurrentBookPage\<close> returns the matches at the indices from
  \<open>(currentPage - 1) * booksPerPage\<close> up to but excluding \<open>currentPage * booksPerPage\<close>.
  When the upper bound is beyond the end of the matches this is the remaining tail, and
  when the lower bound is too, it is the empty list. The call returns a value and
  leaves the list as it is.
\<close>

theorem getCurrentBookPage_slice:
  assumes "1 \<le> currentPage s" and "0 \<le> booksPerPage s"
  shows "getCurrentBookPage s =
           spec_slice (matches s) (nat ((currentPage s - 1) * booksPerPage s))
             (nat (currentPage s * booksPerPage s))
         \<and> (int (length (matches s)) \<le> currentPage s * booksPerPage s \<longrightarrow>
              getCurrentBookPage s =
                drop (nat ((currentPage s - 1) * booksPerPage s)) (matches s))
         \<and> (int (length (matches s)) \<le> (currentPage s - 1) * booksPerPage s \<longrightarrow>
              getCurrentBookPage s = [])
         \<and> call GetCurrentBookPage s = Inr (Books (getCurrentBookPage s), s)"
proof -
  have b: "nat (currentPage s * booksPerPage s) =
      nat ((currentPage s - 1) * booksPerPage s) + nat (booksPerPage s)"
    using assms by (rule nat_page_bounds)
  have p: "getCurrentBookPage s =
    take (nat (booksPerPage s)) (drop (nat ((currentPage s - 1) * booksPerPage s)) (matches s))"
    using assms by (rule page_take_drop)
  have 1: "getCurrentBookPage s =
           spec_slice (matches s) (nat ((currentPage s - 1) * booksPerPage s))
             (nat (currentPage s * booksPerPage s))"
    by (simp add: p b spec_slice_def)
  have 2: "getCurrentBookPage s = drop (nat ((currentPage s - 1) * booksPerPage s)) (matches s)"
    if "int (length (matches s)) \<le> currentPage s * booksPerPage s"
  proof -
    have "length (matches s) \<le> nat (currentPage s * booksPerPage s)"
      using that by simp
    then show ?thesis by (simp add: p b)
  qed
  have 3: "getCurrentBookPage s = []"
    if "int (length (matches s)) \<le> (currentPage s - 1) * booksPerPage s"
  proof -
    have "length (matches s) \<le> nat ((currentPage s - 1) * booksPerPage s)"
      using that by simp
    then show ?thesis by (simp add: p)
  qed
  show ?thesis using 1 2 3 by simp
qed

theorem getCurrentBookPage_slice_witness:
  "1 \<le> currentPage (exampleList\<lparr>currentPage := 2\<rparr>)
   \<and> 0 \<le> booksPerPage (exampleList\<lparr>currentPage := 2\<rparr>)
   \<and> getCurrentBookPage (exampleList\<lparr>currentPage := 2\<rparr>) = [rustPrimer]
   \<and> int (length (matches (exampleList\<lparr>currentPage := 3\<rparr>)))
        \<le> (currentPage (exampleList\<lparr>currentPage := 3\<rparr>) - 1)
            * booksPerPage (exampleList\<lparr>currentPage := 3\<rparr>)
   \<and> getCurrentBookPage (exampleList\<lparr>currentPage := 3\<rparr>) = []
   \<and> call GetCurrentBookPage (exampleList\<lparr>currentPage := 3\<rparr>)
       = Inr (Books [], exampleList\<lparr>currentPage := 3\<rparr>)"
  using getCurrentBookPage_slice [of "exampleList\<lparr>currentPage := 2\<rparr>"]
    getCurrentBookPage_slice [of "exampleList\<lparr>currentPage := 3\<rparr>"]
  by (simp add: exampleList_fields spec_slice_def)

text \<open>
  C6. For every list, \<^verbatim>\<open>remainingCount\<close> is the maximum of 0 and
  \<open>length matches - currentPage * booksPerPage\<close>, hence never negative. In a list of the
  data model it is the number of matches that come after the entries of the pages
  1 to \<^verbatim>\<open>currentPage\<close>.
\<close>

theorem remainingCount_spec:
  "remainingCount s = max 0 (int (length (matches s)) - currentPage s * booksPerPage s)
   \<and> 0 \<le> remainingCount s
   \<and> (1 \<le> currentPage s \<longrightarrow> 0 \<le> booksPerPage s \<longrightarrow>
        (\<exists>rest. matches s = shownUpTo s @ rest \<and> remainingCount s = int (length rest)))"
proof -
  have "\<exists>rest. matches s = shownUpTo s @ rest \<and> remainingCount s = int (length rest)"
    if h: "1 \<le> currentPage s" "0 \<le> booksPerPage s"
  proof (intro exI conjI)
    show "matches s = shownUpTo s @ drop (nat (currentPage s * booksPerPage s)) (matches s)"
      using h by (simp add: shownUpTo_take)
    have "0 \<le> currentPage s * booksPerPage s" using h by simp
    then show "remainingCount s =
        int (length (drop (nat (currentPage s * booksPerPage s)) (matches s)))"
      by (simp add: remainingCount_def max_def)
  qed
  then show ?thesis by (simp add: remainingCount_def)
qed

theorem remainingCount_spec_witness:
  "1 \<le> currentPage exampleList \<and> 0 \<le> booksPerPage exampleList
   \<and> remainingCount exampleList = 1
   \<and> (\<exists>rest. [goFish, rustPrimer] = shownUpTo exampleList @ rest \<and> length rest = 1)"
  using remainingCount_spec [of exampleList]
  by (auto simp: exampleList_fields)

text \<open>
  C7. In every list reached from \<^verbatim>\<open>createBookList\<close> by any sequence of calls of
  \<^verbatim>\<open>search\<close>, \<^verbatim>\<open>getCurrentBookPage\<close>, \<^verbatim>\<open>remainingCount\<close> and \<^verbatim>\<open>nextPage\<close>, \<^verbatim>\<open>currentPage\<close> is at
  least 1 and \<^verbatim>\<open>matches\<close> is a subsequence of \<^verbatim>\<open>books\<close> (the same relative order): it is
  all of \<^verbatim>\<open>books\<close> or the books that pass some filters. Right after \<^verbatim>\<open>createBookList\<close>,
  \<^verbatim>\<open>matches\<close> has the same entries as \<^verbatim>\<open>books\<close>, the ones created from the data, and
  \<^verbatim>\<open>currentPage\<close> is 1.
\<close>

theorem reachable_invariants:
  "1 \<le> currentPage (run cs (createBookList newDate booksData perPage))
   \<and> subseq (matches (run cs (createBookList newDate booksData perPage)))
        (books (run cs (createBookList newDate booksData perPage)))
   \<and> (matches (run cs (createBookList newDate booksData perPage)) =
        books (run cs (createBookList newDate booksData perPage))
      \<or> (\<exists>f. matches (run cs (createBookList newDate booksData perPage)) =
            filter (\<lambda>b. matches_book b f = Inr True)
              (books (run cs (createBookList newDate booksData perPage)))))
   \<and> books (createBookList newDate booksData perPage) = map (createBook newDate) booksData
   \<and> matches (createBookList newDate booksData perPage) = map (createBook newDate) booksData
   \<and> currentPage (createBookList newDate booksData perPage) = 1"
proof -
  let ?s0 = "createBookList newDate booksData perPage"
  have i: "matches ?s0 = books ?s0" "currentPage ?s0 = 1"
    by (simp_all add: createBookList_def)
  have 1: "1 \<le> currentPage (run cs ?s0)"
    by (rule run_currentPage) (simp add: i)
  have 3: "matches (run cs ?s0) = books (run cs ?s0)
      \<or> (\<exists>f. matches (run cs ?s0) =
            filter (\<lambda>b. matches_book b f = Inr True) (books (run cs ?s0)))"
    using run_filtered [of ?s0 cs] i by simp
  then have 2: "subseq (matches (run cs ?s0)) (books (run cs ?s0))"
    by auto
  show ?thesis
    using 1 2 3 by (simp add: createBookList_def)
qed

theorem reachable_invariants_witness:
  "1 \<le> currentPage (run [NextPage, GetCurrentBookPage, NextPage, RemainingCount] exampleList)
   \<and> run [NextPage, GetCurrentBookPage, NextPage, RemainingCount] exampleList
       = exampleList\<lparr>currentPage := 2\<rparr>
   \<and> subseq (matches (run [NextPage, GetCurrentBookPage, NextPage, RemainingCount] exampleList))
       [goFish, rustPrimer]
   \<and> matches exampleList = [goFish, rustPrimer] \<and> currentPage exampleList = 1"
proof -
  have r: "run [NextPage, GetCurrentBookPage, NextPage, RemainingCount] exampleList
      = exampleList\<lparr>currentPage := 2\<rparr>"
    by (simp add: step_def nextPage_def remainingCount_def exampleList_def createBookList_def)
  have b: "createBook (\<lambda>d. d) goFish = goFish" "createBook (\<lambda>d. d) rustPrimer = rustPrimer"
    by (simp_all add: createBook_def goFish_def rustPrimer_def)
  have bk: "books exampleList = [goFish, rustPrimer]"
    by (simp add: exampleList_def createBookList_def b)
  have "1 \<le> currentPage (run [NextPage, GetCurrentBookPage, NextPage, RemainingCount] exampleList)
    \<and> subseq (matches (run [NextPage, GetCurrentBookPage, NextPage, RemainingCount] exampleList))
        (books (run [NextPage, GetCurrentBookPage, NextPage, RemainingCount] exampleList))
    \<and> matches exampleList = map (createBook (\<lambda>d. d)) [goFish, rustPrimer]
    \<and> currentPage exampleList = 1"
    using reachable_invariants [of "[NextPage, GetCurrentBookPage, NextPage, RemainingCount]"
        "\<lambda>d. d" "[goFish, rustPrimer]" 1]
    unfolding exampleList_def by blast
  then show ?thesis
    using r by (simp add: b bk del: run_Cons run_Nil)
qed

text \<open>
  C8. For every list, \<^verbatim>\<open>search\<close> with the empty title and the sentinel \<^verbatim>\<open>any\<close> for
  author and genre makes \<^verbatim>\<open>matches\<close> equal to \<^verbatim>\<open>books\<close>: the same entries in the same
  order, and as many.
\<close>

theorem search_identity_filter:
  "search (criteria '''' ''any'' ''any'') s =
     Inr (books s, s\<lparr>matches := books s, currentPage := 1\<rparr>)
   \<and> (\<exists>ms s'. search (criteria '''' ''any'' ''any'') s = Inr (ms, s')
         \<and> ms = books s \<and> matches s' = books s \<and> length (matches s') = length (books s))"
  by (simp add: search_criteria spec_titleTest_def spec_authorTest_def spec_genreTest_def
      blank_def)

theorem search_identity_filter_witness:
  "search (criteria '''' ''any'' ''any'') (exampleList\<lparr>matches := [], currentPage := 5\<rparr>) =
     Inr ([goFish, rustPrimer], exampleList)"
  using search_identity_filter [of "exampleList\<lparr>matches := [], currentPage := 5\<rparr>"]
  by (simp add: exampleList_def createBookList_def createBook_def goFish_def rustPrimer_def)

text \<open>
  C9. With a criteria triple of strings no call throws, in any list: \<^verbatim>\<open>matches\<close> and
  \<^verbatim>\<open>search\<close> return a value, and so does every call of the interface. A search that
  no book passes returns the empty list as an ordinary result. A page beyond the end of
  the matches is the empty list, and \<^verbatim>\<open>nextPage\<close> with nothing remaining returns false
  and changes nothing. An author that is neither \<^verbatim>\<open>any\<close> nor the author of a book, or a
  genre that is neither \<^verbatim>\<open>any\<close> nor a genre of a book, matches no book.
\<close>

theorem no_operation_throws:
  "(\<exists>r. matches_book b (criteria t a g) = Inr r)
   \<and> (\<exists>ms s'. search (criteria t a g) s = Inr (ms, s'))
   \<and> (stringCriteria c \<longrightarrow> (\<exists>r s'. call c s = Inr (r, s')))
   \<and> (list_all (\<lambda>b. matches_book b (criteria t a g) = Inr False) (books s) \<longrightarrow>
        search (criteria t a g) s = Inr ([], s\<lparr>matches := [], currentPage := 1\<rparr>))
   \<and> (1 \<le> currentPage s \<longrightarrow> 0 \<le> booksPerPage s \<longrightarrow>
        int (length (matches s)) \<le> (currentPage s - 1) * booksPerPage s \<longrightarrow>
        call GetCurrentBookPage s = Inr (Books [], s))
   \<and> (remainingCount s = 0 \<longrightarrow> call NextPage s = Inr (Bool False, s))
   \<and> (a \<noteq> ''any'' \<longrightarrow> a \<notin> author ` set (books s) \<longrightarrow>
        search (criteria t a g) s = Inr ([], s\<lparr>matches := [], currentPage := 1\<rparr>))
   \<and> (g \<noteq> ''any'' \<longrightarrow> g \<notin> \<Union> (set ` genres ` set (books s)) \<longrightarrow>
        search (criteria t a g) s = Inr ([], s\<lparr>matches := [], currentPage := 1\<rparr>))"
proof -
  have 1: "\<exists>r. matches_book b (criteria t a g) = Inr r"
    by (simp add: matches_book_criteria)
  have 2: "\<exists>ms s'. search (criteria t a g) s = Inr (ms, s')"
    by (simp add: search_Inr_True)
  have 3: "\<exists>r s'. call c s = Inr (r, s')" if "stringCriteria c"
  proof (cases c)
    case (Search f)
    with that obtain t' a' g' where "f = criteria t' a' g'"
      by (cases f; cases "f_title f"; cases "f_author f"; cases "f_genre f") auto
    then show ?thesis by (simp add: Search search_Inr_True)
  next
    case NextPage
    then show ?thesis by (simp add: nextPage_def)
  qed simp_all
  have 4: "search (criteria t a g) s = Inr ([], s\<lparr>matches := [], currentPage := 1\<rparr>)"
    if "list_all (\<lambda>b. matches_book b (criteria t a g) = Inr False) (books s)"
    using that by (intro search_no_match) (simp add: list_all_iff)
  have 5: "call GetCurrentBookPage s = Inr (Books [], s)"
    if "1 \<le> currentPage s" "0 \<le> booksPerPage s"
      "int (length (matches s)) \<le> (currentPage s - 1) * booksPerPage s"
  proof -
    have "0 \<le> (currentPage s - 1) * booksPerPage s" using that by simp
    moreover have "length (matches s) \<le> nat ((currentPage s - 1) * booksPerPage s)"
      using that by simp
    ultimately show ?thesis
      using that by (simp add: getCurrentBookPage_def Let_def slice_nonneg)
  qed
  have 6: "call NextPage s = Inr (Bool False, s)" if "remainingCount s = 0"
    using that by (simp add: nextPage_def)
  have 7: "search (criteria t a g) s = Inr ([], s\<lparr>matches := [], currentPage := 1\<rparr>)"
    if "a \<noteq> ''any''" "a \<notin> author ` set (books s)"
    using that
    by (intro search_no_match) (auto simp: matches_book_criteria spec_authorTest_def)
  have 8: "search (criteria t a g) s = Inr ([], s\<lparr>matches := [], currentPage := 1\<rparr>)"
    if "g \<noteq> ''any''" "g \<notin> \<Union> (set ` genres ` set (books s))"
    using that
    by (intro search_no_match) (auto simp: matches_book_criteria spec_genreTest_def)
  show ?thesis using 1 2 3 4 5 6 7 8 by blast
qed

theorem no_operation_throws_witness:
  "stringCriteria (Search (criteria ''fish'' ''a9'' ''any''))
   \<and> (\<exists>r s'. call (Search (criteria ''fish'' ''a9'' ''any'')) exampleList = Inr (r, s'))
   \<and> ''a9'' \<noteq> ''any'' \<and> ''a9'' \<notin> author ` set (books exampleList)
   \<and> call (Search (criteria ''fish'' ''a9'' ''any'')) exampleList =
       Inr (Books [], exampleList\<lparr>matches := [], currentPage := 1\<rparr>)
   \<and> ''g9'' \<noteq> ''any'' \<and> ''g9'' \<notin> \<Union> (set ` genres ` set (books exampleList))
   \<and> search (criteria '''' ''any'' ''g9'') exampleList =
       Inr ([], exampleList\<lparr>matches := [], currentPage := 1\<rparr>)
   \<and> list_all (\<lambda>b. matches_book b (criteria ''zebra'' ''any'' ''any'') = Inr False)
        (books exampleList)
   \<and> search (criteria ''zebra'' ''any'' ''any'') exampleList =
       Inr ([], exampleList\<lparr>matches := [], currentPage := 1\<rparr>)
   \<and> remainingCount (exampleList\<lparr>currentPage := 2\<rparr>) = 0
   \<and> call NextPage (exampleList\<lparr>currentPage := 2\<rparr>)
       = Inr (Bool False, exampleList\<lparr>currentPage := 2\<rparr>)
   \<and> int (length (matches (exampleList\<lparr>currentPage := 7\<rparr>)))
        \<le> (currentPage (exampleList\<lparr>currentPage := 7\<rparr>) - 1)
            * booksPerPage (exampleList\<lparr>currentPage := 7\<rparr>)
   \<and> call GetCurrentBookPage (exampleList\<lparr>currentPage := 7\<rparr>)
       = Inr (Books [], exampleList\<lparr>currentPage := 7\<rparr>)"
proof -
  note inst1 = no_operation_throws [of goFish "''fish''" "''a9''" "''any''" exampleList
      "Search (criteria ''fish'' ''a9'' ''any'')"]
  note inst2 = no_operation_throws [of goFish "''''" "''any''" "''g9''" exampleList NextPage]
  note inst3 = no_operation_throws [of goFish "''zebra''" "''any''" "''any''" exampleList NextPage]
  note inst4 = no_operation_throws [of goFish "''''" "''any''" "''any''"
      "exampleList\<lparr>currentPage := 2\<rparr>" NextPage]
  note inst5 = no_operation_throws [of goFish "''''" "''any''" "''any''"
      "exampleList\<lparr>currentPage := 7\<rparr>" NextPage]
  have sc: "stringCriteria (Search (criteria ''fish'' ''a9'' ''any''))" by simp
  have ex: "\<exists>r s'. call (Search (criteria ''fish'' ''a9'' ''any'')) exampleList = Inr (r, s')"
    using inst1 sc by blast
  have au: "''a9'' \<noteq> ''any''" "''a9'' \<notin> author ` set (books exampleList)"
    by (simp_all add: exampleList_fields goFish_def rustPrimer_def)
  have "search (criteria ''fish'' ''a9'' ''any'') exampleList =
      Inr ([], exampleList\<lparr>matches := [], currentPage := 1\<rparr>)"
    using inst1 au by blast
  then have 1: "call (Search (criteria ''fish'' ''a9'' ''any'')) exampleList =
     Inr (Books [], exampleList\<lparr>matches := [], currentPage := 1\<rparr>)"
    by simp
  have ge: "''g9'' \<noteq> ''any''" "''g9'' \<notin> \<Union> (set ` genres ` set (books exampleList))"
    by (simp_all add: exampleList_fields goFish_def rustPrimer_def)
  have 2: "search (criteria '''' ''any'' ''g9'') exampleList =
       Inr ([], exampleList\<lparr>matches := [], currentPage := 1\<rparr>)"
    using inst2 ge by blast
  have z1: "\<not> spec_titleTest goFish ''zebra''" by code_simp
  have z2: "\<not> spec_titleTest rustPrimer ''zebra''" by code_simp
  have la: "list_all (\<lambda>b. matches_book b (criteria ''zebra'' ''any'' ''any'') = Inr False)
        (books exampleList)"
    by (simp add: exampleList_fields matches_book_criteria z1 z2)
  have 3: "search (criteria ''zebra'' ''any'' ''any'') exampleList =
       Inr ([], exampleList\<lparr>matches := [], currentPage := 1\<rparr>)"
    using inst3 la by blast
  have r0: "remainingCount (exampleList\<lparr>currentPage := 2\<rparr>) = 0"
    by (simp add: remainingCount_def exampleList_fields)
  have 4: "call NextPage (exampleList\<lparr>currentPage := 2\<rparr>)
      = Inr (Bool False, exampleList\<lparr>currentPage := 2\<rparr>)"
    using inst4 r0 by blast
  have h: "1 \<le> currentPage (exampleList\<lparr>currentPage := 7\<rparr>)"
    "0 \<le> booksPerPage (exampleList\<lparr>currentPage := 7\<rparr>)"
    "int (length (matches (exampleList\<lparr>currentPage := 7\<rparr>))) \<le>
       (currentPage (exampleList\<lparr>currentPage := 7\<rparr>) - 1)
         * booksPerPage (exampleList\<lparr>currentPage := 7\<rparr>)"
    by (simp_all add: exampleList_fields)
  have 5: "call GetCurrentBookPage (exampleList\<lparr>currentPage := 7\<rparr>)
      = Inr (Books [], exampleList\<lparr>currentPage := 7\<rparr>)"
    using inst5 h by blast
  show ?thesis using sc ex au 1 ge 2 la 3 r0 4 h(3) 5 by blast
qed

text \<open>
  C10. No call changes \<^verbatim>\<open>books\<close> or \<^verbatim>\<open>booksPerPage\<close>: after any sequence of calls both
  are what they were, and what \<^verbatim>\<open>createBookList\<close> made them. Every call leaves a list that
  differs from the one before in \<^verbatim>\<open>matches\<close> and \<^verbatim>\<open>currentPage\<close> at most, and
  \<^verbatim>\<open>getCurrentBookPage\<close> and \<^verbatim>\<open>remainingCount\<close> leave it as it is.
\<close>

theorem books_and_booksPerPage_fixed:
  "books (run cs s) = books s
   \<and> booksPerPage (run cs s) = booksPerPage s
   \<and> books (run cs (createBookList newDate booksData perPage)) = map (createBook newDate) booksData
   \<and> booksPerPage (run cs (createBookList newDate booksData perPage)) = perPage
   \<and> (\<exists>ms page. step c s = s\<lparr>matches := ms, currentPage := page\<rparr>)
   \<and> step GetCurrentBookPage s = s
   \<and> step RemainingCount s = s"
proof -
  have "\<exists>ms page. step c s = s\<lparr>matches := ms, currentPage := page\<rparr>"
  proof -
    consider "step c s = s" | "step c s = s\<lparr>currentPage := currentPage s + 1\<rparr>"
      | f where "step c s =
         s\<lparr>matches := filter (\<lambda>b. matches_book b f = Inr True) (books s), currentPage := 1\<rparr>"
      using step_cases [of c s] by blast
    then show ?thesis
    proof cases
      case 1
      then have "step c s = s\<lparr>matches := matches s, currentPage := currentPage s\<rparr>" by simp
      then show ?thesis by blast
    next
      case 2
      then have "step c s = s\<lparr>matches := matches s, currentPage := currentPage s + 1\<rparr>" by simp
      then show ?thesis by blast
    next
      case 3
      then show ?thesis by blast
    qed
  qed
  then show ?thesis
    by (simp add: createBookList_def step_def)
qed

theorem books_and_booksPerPage_fixed_witness:
  "books (run [Search (criteria ''rust'' ''any'' ''any''), NextPage, Search \<lparr>f_title = Undefined, f_author = Undefined, f_genre = Undefined\<rparr>] exampleList)
     = [goFish, rustPrimer]
   \<and> booksPerPage (run [Search (criteria ''rust'' ''any'' ''any''), NextPage, Search \<lparr>f_title = Undefined, f_author = Undefined, f_genre = Undefined\<rparr>] exampleList) = 1"
  using books_and_booksPerPage_fixed [of "[Search (criteria ''rust'' ''any'' ''any''), NextPage, Search \<lparr>f_title = Undefined, f_author = Undefined, f_genre = Undefined\<rparr>]"
      exampleList "\<lambda>d. d" "[]" 0 NextPage]
  by (simp add: exampleList_def createBookList_def createBook_def goFish_def rustPrimer_def)

end
